theory Spec2Isabelle
  imports Main
begin

section \<open>Values shared by the command-line front end\<close>

text \<open>
  The development follows \<^verbatim>\<open>cmd/sst/main.go\<close>. A Go function that can return an
  error, panic, or return a value is modelled with the three-way type \<open>result\<close>;
  \<open>Failed\<close> stands for a non-nil \<^verbatim>\<open>error\<close> return, \<open>Panicked\<close> for a run-time panic.
\<close>

datatype error =
    Err string
  | ReadableError "error option" string

datatype panic =
    IndexOutOfRange
  | TypeAssertion string
  | FlagRedefined string

datatype 'a result =
    Returned 'a
  | Failed error
  | Panicked panic

text \<open>
  \<^verbatim>\<open>parsedFlags\<close> is a \<^verbatim>\<open>map[string]interface{}\<close> whose entries point at a string
  or at a bool, depending on the registered flag type.
\<close>

datatype flag_value = StringVal string | BoolVal bool

fun is_bool_flag :: "flag_value \<Rightarrow> bool" where
  "is_bool_flag (BoolVal _) = True"
| "is_bool_flag (StringVal _) = False"

datatype Argument = Argument (arg_Name: string) (arg_Required: bool)

datatype Flag = Flag (flag_Name: string) (flag_Type: string)

text \<open>The \<^verbatim>\<open>Run\<close> closures of the command table, one name per closure.\<close>

datatype handler =
    CmdInit | CmdDev | RunDeploy | RunAdd | RunInstall
  | RunSecretSet | RunSecretRemove | RunSecretList
  | RunShell | RunRemove | RunUnlock | RunVersion | RunUpgrade
  | RunTelemetryEnable | RunTelemetryDisable
  | RunImportUnstable | RunServer | RunIntrospect | RunRefresh | RunStateEdit

text \<open>
  \<^verbatim>\<open>type Command struct\<close>; the \<^verbatim>\<open>Description\<close> and \<^verbatim>\<open>Examples\<close> fields only feed
  the help text and are left out. \<open>Run = None\<close> is a nil \<^verbatim>\<open>Run\<close>.
\<close>

datatype Command =
  Command (Name: string) (Hidden: bool) (Args: "Argument list") (Flags: "Flag list")
          (Children: "Command list") (Run: "handler option")

text \<open>\<^verbatim>\<open>type Cli struct\<close>, without the context and its cancel function.\<close>

record Cli =
  flags :: "string \<rightharpoonup> flag_value"
  arguments :: "string list"
  path :: "Command list"

subsection \<open>Accessors of \<^verbatim>\<open>Cli\<close>\<close>

definition Cli_String :: "Cli \<Rightarrow> string \<Rightarrow> string result" where
  "Cli_String c name =
     (case flags c name of
        Some (StringVal s) \<Rightarrow> Returned s
      | Some (BoolVal b) \<Rightarrow> Panicked (TypeAssertion name)
      | None \<Rightarrow> Returned [])"

definition Cli_Bool :: "Cli \<Rightarrow> string \<Rightarrow> bool result" where
  "Cli_Bool c name =
     (case flags c name of
        Some (BoolVal b) \<Rightarrow> Returned b
      | Some (StringVal s) \<Rightarrow> Panicked (TypeAssertion name)
      | None \<Rightarrow> Returned False)"

text \<open>
  \<^verbatim>\<open>func (c *Cli) Positional(index int) string\<close>. The index is a Go \<^verbatim>\<open>int\<close>; a
  negative one passes the guard and panics at the slice access.
\<close>

definition Positional :: "Cli \<Rightarrow> int \<Rightarrow> string result" where
  "Positional c index =
     (if index \<ge> int (length (arguments c)) then Returned []
      else if index < 0 then Panicked IndexOutOfRange
      else Returned (arguments c ! nat index))"

section \<open>Stage guess from the user name\<close>

text \<open>
  \<^verbatim>\<open>strings.ToLower\<close> of the Go library. A string is its bytes. When every byte is
  below 128 (\<^verbatim>\<open>utf8.RuneSelf\<close>) the library lower-cases in place: the letters \<open>A\<close> to
  \<open>Z\<close> move to \<open>a\<close> to \<open>z\<close>, every other byte stays. Otherwise it returns
  \<^verbatim>\<open>Map(unicode.ToLower, s)\<close>, which decodes the runes and maps each through the
  Unicode case tables. Those tables are not among the sources; the mapping of a
  non-ASCII string is the parameter \<open>unicode\<close>.
\<close>

definition lower_byte :: "char \<Rightarrow> char" where
  "lower_byte c =
     (let n = (of_char c :: nat) in if 65 \<le> n \<and> n \<le> 90 then char_of (n + 32) else c)"

definition isASCII :: "string \<Rightarrow> bool" where
  "isASCII s = list_all (\<lambda>c. (of_char c :: nat) < 128) s"

definition ToLower :: "(string \<Rightarrow> string) \<Rightarrow> string \<Rightarrow> string" where
  "ToLower unicode s = (if isASCII s then map lower_byte s else unicode s)"

text \<open>
  \<^verbatim>\<open>guessStage\<close>; the second argument is what \<^verbatim>\<open>user.Current()\<close> hands back: an
  error, or the \<^verbatim>\<open>Username\<close> of the current user.
\<close>

definition guessStage :: "(string \<Rightarrow> string) \<Rightarrow> error + string \<Rightarrow> string" where
  "guessStage unicode current =
     (case current of
        Inl err \<Rightarrow> []
      | Inr Username \<Rightarrow>
          (let stage = ToLower unicode Username in
           if stage = ''root'' \<or> stage = ''admin'' \<or> stage = ''prod'' \<or> stage = ''dev''
              \<or> stage = ''production''
           then []
           else stage))"

text \<open>
  Two mappings for examples. \<open>no_mapping\<close> serves where the user name is ASCII and the
  Unicode path is never taken. \<open>dotted_I\<close> agrees with the Unicode tables on the one
  string it changes: the capital I with a dot above (U+0130, bytes C4 B0) lower-cases to
  \<open>i\<close>, so \<open>ADM\<close>, that letter, \<open>N\<close> becomes \<open>admin\<close>.
\<close>

definition no_mapping :: "string \<Rightarrow> string" where
  "no_mapping s = s"

definition dotted_I :: "string \<Rightarrow> string" where
  "dotted_I s = (if s = ''ADM'' @ [CHR 0xC4, CHR 0xB0] @ ''N'' then ''admin'' else s)"

text \<open>The five names the specification lists as never being guessed.\<close>

definition denylisted :: "string set" where
  "denylisted = {''root'', ''admin'', ''prod'', ''dev'', ''production''}"

section \<open>Flag registration and parsing\<close>

type_synonym flagset = "string \<rightharpoonup> flag_value"

text \<open>
  \<^verbatim>\<open>flag.String(name, "", "")\<close> and \<^verbatim>\<open>flag.Bool(name, false, "")\<close> add a flag to
  the process-wide flag set and return the pointer that \<^verbatim>\<open>registerFlags\<close> stores under
  the same name, so one map from names to current values stands for both. The flag
  library panics when a name is defined twice.
\<close>

definition define_flag :: "string \<Rightarrow> flag_value \<Rightarrow> flagset \<Rightarrow> flagset result" where
  "define_flag name v parsed =
     (if parsed name \<noteq> None then Panicked (FlagRedefined name)
      else Returned (parsed(name \<mapsto> v)))"

definition register_one :: "Flag \<Rightarrow> flagset \<Rightarrow> flagset result" where
  "register_one f parsed =
     (case (if flag_Type f = ''string'' then define_flag (flag_Name f) (StringVal []) parsed
            else Returned parsed) of
        Returned parsed1 \<Rightarrow>
          (if flag_Type f = ''bool'' then define_flag (flag_Name f) (BoolVal False) parsed1
           else Returned parsed1)
      | Failed e \<Rightarrow> Failed e
      | Panicked p \<Rightarrow> Panicked p)"

fun register_each :: "Flag list \<Rightarrow> flagset \<Rightarrow> flagset result" where
  "register_each [] parsed = Returned parsed"
| "register_each (f # fs) parsed =
     (case register_one f parsed of
        Returned parsed1 \<Rightarrow> register_each fs parsed1
      | Failed e \<Rightarrow> Failed e
      | Panicked p \<Rightarrow> Panicked p)"

text \<open>\<^verbatim>\<open>func (c *Command) registerFlags\<close>: the command's own flags, then each child's.\<close>

fun registerFlags :: "Command \<Rightarrow> flagset \<Rightarrow> flagset result"
  and registerFlags_children :: "Command list \<Rightarrow> flagset \<Rightarrow> flagset result" where
  "registerFlags (Command n h a fl ch r) parsed =
     (case register_each fl parsed of
        Returned parsed1 \<Rightarrow> registerFlags_children ch parsed1
      | Failed e \<Rightarrow> Failed e
      | Panicked p \<Rightarrow> Panicked p)"
| "registerFlags_children [] parsed = Returned parsed"
| "registerFlags_children (child # rest) parsed =
     (case registerFlags child parsed of
        Returned parsed1 \<Rightarrow> registerFlags_children rest parsed1
      | Failed e \<Rightarrow> Failed e
      | Panicked p \<Rightarrow> Panicked p)"

subsection \<open>The flag library's parser\<close>

text \<open>
  Modelled from the spec: \<^verbatim>\<open>flag.CommandLine.Parse\<close> belongs to the external flag
  library (\<^verbatim>\<open>github.com/spf13/pflag\<close>), which is not among the sources. The
  specification says that any \<^verbatim>\<open>--name[=value]\<close> token, anywhere, is consumed into the
  flag map, with the usual double-dash convention, and that an unknown flag is a parse
  failure. The model below follows the library's documented treatment of long flags in
  its default (interspersed) mode:
  \<^item> a token that is empty, is \<^verbatim>\<open>-\<close>, or does not start with \<^verbatim>\<open>-\<close> is an argument;
  \<^item> \<^verbatim>\<open>--\<close> ends flag parsing, and everything after it is an argument;
  \<^item> \<^verbatim>\<open>--name=value\<close> sets a flag; \<^verbatim>\<open>--name\<close> sets a bool flag to true and makes
    a string flag take the next token as its value;
  \<^item> no shorthand is registered, so a single-dash token fails (the library skips
    tokens that start with \<^verbatim>\<open>-test.\<close>).
  After a failure the arguments collected so far and the flags set so far remain.
\<close>

definition ParseBool :: "string \<Rightarrow> bool option" where
  "ParseBool str =
     (if str \<in> set [''1'', ''t'', ''T'', ''TRUE'', ''true'', ''True''] then Some True
      else if str \<in> set [''0'', ''f'', ''F'', ''FALSE'', ''false'', ''False''] then Some False
      else None)"

definition set_value :: "flag_value \<Rightarrow> string \<Rightarrow> error + flag_value" where
  "set_value old str =
     (case old of
        StringVal _ \<Rightarrow> Inr (StringVal str)
      | BoolVal _ \<Rightarrow>
          (case ParseBool str of
             Some b \<Rightarrow> Inr (BoolVal b)
           | None \<Rightarrow> Inl (Err (''invalid argument for flag: '' @ str))))"

definition split_name :: "string \<Rightarrow> string \<times> string option" where
  "split_name name =
     (case dropWhile (\<lambda>c. c \<noteq> CHR ''='') name of
        [] \<Rightarrow> (name, None)
      | _ # v \<Rightarrow> (takeWhile (\<lambda>c. c \<noteq> CHR ''='') name, Some v))"

text \<open>
  One long flag \<open>s\<close> followed by the tokens \<open>a\<close>: the updated flag set and how many of
  the following tokens were used as the flag's value (0 or 1).
\<close>

definition parseLongArg :: "flagset \<Rightarrow> string \<Rightarrow> string list \<Rightarrow> error + (flagset \<times> nat)" where
  "parseLongArg formal s a =
     (let name = drop 2 s in
      if name = [] \<or> hd name = CHR ''-'' \<or> hd name = CHR ''=''
      then Inl (Err (''bad flag syntax: '' @ s))
      else
        (case split_name name of (name1, given) \<Rightarrow>
          (case formal name1 of
             None \<Rightarrow>
               (if name1 = ''help'' then Inl (Err ''pflag: help requested'')
                else Inl (Err (''unknown flag: --'' @ name1)))
           | Some old \<Rightarrow>
               (case given of
                  Some v \<Rightarrow>
                    (case set_value old v of
                       Inl e \<Rightarrow> Inl e
                     | Inr new \<Rightarrow> Inr (formal(name1 \<mapsto> new), 0))
                | None \<Rightarrow>
                    (case old of
                       BoolVal _ \<Rightarrow> Inr (formal(name1 \<mapsto> BoolVal True), 0)
                     | StringVal _ \<Rightarrow>
                         (case a of
                            v # _ \<Rightarrow> Inr (formal(name1 \<mapsto> StringVal v), 1)
                          | [] \<Rightarrow> Inl (Err (''flag needs an argument: '' @ s))))))))"

definition parseShortArg :: "string \<Rightarrow> error option" where
  "parseShortArg s =
     (let shorthands = drop 1 s in
      if take 5 shorthands = ''test.'' then None
      else if hd shorthands = CHR ''h'' then Some (Err ''pflag: help requested'')
      else Some (Err (''unknown shorthand flag in '' @ s)))"

text \<open>
  \<open>parseArgs formal tokens args\<close>: the parse error if any, the flag values, and the
  non-flag arguments (\<^verbatim>\<open>flag.Args()\<close>), \<open>args\<close> being those collected so far.
\<close>

fun parseArgs :: "flagset \<Rightarrow> string list \<Rightarrow> string list \<Rightarrow> error option \<times> flagset \<times> string list" where
  "parseArgs formal [] args = (None, formal, args)"
| "parseArgs formal (s # rest) args =
     (if length s = 0 \<or> hd s \<noteq> CHR ''-'' \<or> length s = 1
      then parseArgs formal rest (args @ [s])
      else if s ! 1 = CHR ''-'' then
        (if length s = 2 then (None, formal, args @ rest)
         else
           (case parseLongArg formal s rest of
              Inl e \<Rightarrow> (Some e, formal, args)
            | Inr (formal1, used) \<Rightarrow> parseArgs formal1 (drop used rest) args))
      else
        (case parseShortArg s of
           Some e \<Rightarrow> (Some e, formal, args)
         | None \<Rightarrow> parseArgs formal rest args))"

definition Parse :: "flagset \<Rightarrow> string list \<Rightarrow> error option \<times> flagset \<times> string list" where
  "Parse formal argv = parseArgs formal argv []"

section \<open>Stage resolution\<close>

text \<open>
  One call of \<^verbatim>\<open>fmt.Scanln(&stage)\<close>: either it returns no error, having stored a
  token in \<^verbatim>\<open>stage\<close>, or it returns an error (nothing on the line, more than one
  token, end of input). Standard input is the sequence of these outcomes, one per call.
\<close>

datatype scan = ScanOk string | ScanErr

text \<open>
  What stage resolution is given: the answer of \<^verbatim>\<open>user.Current()\<close>, the Unicode
  lower-casing of the library, standard input, and the error of
  \<^verbatim>\<open>SetPersonalStage\<close> if it fails.
\<close>

record stage_env =
  current_user :: "error + string"
  unicode_lower :: "string \<Rightarrow> string"
  stdin :: "nat \<Rightarrow> scan"
  write_error :: "error option"

text \<open>
  What stage resolution reads and changes outside the process: the marker file next to
  each project configuration, how many \<^verbatim>\<open>Scanln\<close> calls have consumed input, how many
  times the operating system was asked for the current user, and the files handed to
  \<^verbatim>\<open>godotenv.Load\<close>.
\<close>

record stage_world =
  marker :: "string \<rightharpoonup> string"
  scanned :: nat
  lookups :: nat
  dotenv :: "string list"

text \<open>
  Modelled from the spec: \<^verbatim>\<open>project.LoadPersonalStage\<close> is not among the sources.
  The specification calls its result the previously persisted personal-stage marker file
  next to the project config; the caller treats the empty string as no marker.
\<close>

definition LoadPersonalStage :: "stage_world \<Rightarrow> string \<Rightarrow> string" where
  "LoadPersonalStage w cfgPath = (case marker w cfgPath of None \<Rightarrow> [] | Some stage \<Rightarrow> stage)"

text \<open>
  Modelled from the spec: \<^verbatim>\<open>project.SetPersonalStage\<close> is not among the sources. It
  persists the value as the new personal-stage marker, or returns an error (given by
  the environment) and leaves the marker as it was.
\<close>

definition SetPersonalStage ::
  "stage_env \<Rightarrow> stage_world \<Rightarrow> string \<Rightarrow> string \<Rightarrow> error option \<times> stage_world" where
  "SetPersonalStage env w cfgPath stage =
     (case write_error env of
        Some err \<Rightarrow> (Some err, w)
      | None \<Rightarrow> (None, w\<lparr>marker := (marker w)(cfgPath \<mapsto> stage)\<rparr>))"

text \<open>
  The \<^verbatim>\<open>for\<close> loop of \<^verbatim>\<open>getStage\<close>: prompt, scan, start over on an error or on an
  empty value. \<open>n\<close> is the number of scans made before; the result is the value entered
  and the number of scans made after. The loop has no other exit, so it may run forever:
  then the result is \<open>None\<close>.
\<close>

partial_function (option) prompt :: "(nat \<Rightarrow> scan) \<Rightarrow> nat \<Rightarrow> (string \<times> nat) option" where
  "prompt input n =
     (case input n of
        ScanErr \<Rightarrow> prompt input (Suc n)
      | ScanOk stage \<Rightarrow> (if stage = [] then prompt input (Suc n) else Some (stage, Suc n)))"

text \<open>A scan after which the loop starts over: an error, or an empty value.\<close>

definition rejected :: "scan \<Rightarrow> bool" where
  "rejected x = (case x of ScanErr \<Rightarrow> True | ScanOk stage \<Rightarrow> stage = [])"

definition load_dotenv :: "stage_world \<Rightarrow> string \<Rightarrow> stage_world" where
  "load_dotenv w stage = w\<lparr>dotenv := dotenv w @ [''.env.'' @ stage]\<rparr>"

text \<open>
  \<^verbatim>\<open>getStage(cli, cfgPath)\<close>. \<open>None\<close>: the prompt loop never ends. \<open>Failed\<close> is the
  return of \<^verbatim>\<open>"", err\<close>.
\<close>

definition getStage ::
  "stage_env \<Rightarrow> Cli \<Rightarrow> string \<Rightarrow> stage_world \<Rightarrow> (string result \<times> stage_world) option" where
  "getStage env cli cfgPath w =
     (case Cli_String cli ''stage'' of
        Returned stage \<Rightarrow>
          (if stage = [] then
             (let stage = LoadPersonalStage w cfgPath in
              if stage = [] then
                (let stage = guessStage (unicode_lower env) (current_user env);
                     w1 = w\<lparr>lookups := Suc (lookups w)\<rparr>
                 in case (if stage = [] then prompt (stdin env) (scanned w1)
                          else Some (stage, scanned w1)) of
                      None \<Rightarrow> None
                    | Some (stage, n) \<Rightarrow>
                        (case SetPersonalStage env (w1\<lparr>scanned := n\<rparr>) cfgPath stage of
                           (Some err, w2) \<Rightarrow> Some (Failed err, w2)
                         | (None, w2) \<Rightarrow> Some (Returned stage, load_dotenv w2 stage)))
              else Some (Returned stage, load_dotenv w stage))
           else Some (Returned stage, load_dotenv w stage))
      | Failed e \<Rightarrow> Some (Failed e, w)
      | Panicked p \<Rightarrow> Some (Panicked p, w))"

text \<open>Sample inputs for stage resolution.\<close>

definition fresh_world :: stage_world where
  "fresh_world = \<lparr>marker = Map.empty, scanned = 0, lookups = 0, dotenv = []\<rparr>"

definition user_alice :: stage_env where
  "user_alice = \<lparr>current_user = Inr ''Alice'', unicode_lower = no_mapping,
                  stdin = (\<lambda>n. ScanErr), write_error = None\<rparr>"

definition user_root_typing :: stage_env where
  "user_root_typing =
     \<lparr>current_user = Inr ''root'', unicode_lower = no_mapping,
      stdin = (\<lambda>n. if n = 0 then ScanErr else if n = 1 then ScanOk [] else ScanOk ''dev1''),
      write_error = None\<rparr>"

definition user_root_silent :: stage_env where
  "user_root_silent = \<lparr>current_user = Inr ''root'', unicode_lower = no_mapping,
                        stdin = (\<lambda>n. ScanErr), write_error = None\<rparr>"

definition cli_with_stage :: "string \<Rightarrow> Cli" where
  "cli_with_stage stage =
     \<lparr>flags = [''stage'' \<mapsto> StringVal stage, ''verbose'' \<mapsto> BoolVal False,
               ''help'' \<mapsto> BoolVal False],
      arguments = [], path = []\<rparr>"

section \<open>The dispatcher\<close>

text \<open>
  The inner loop: the first child of \<open>lst\<close> whose name is the token, \<open>None\<close> for a
  \<^verbatim>\<open>cmd\<close> left nil.
\<close>

definition matching_child :: "Command \<Rightarrow> string \<Rightarrow> Command option" where
  "matching_child lst arg = find (\<lambda>c. Name c = arg) (Children lst)"

text \<open>
  The loop of \<^verbatim>\<open>run\<close> over \<^verbatim>\<open>flag.Args()\<close>. \<open>cmds\<close> is the path so far and the
  list argument holds the tokens from the loop index on. The result is the final path
  and \<^verbatim>\<open>positionals\<close>, which the source initialises to the empty slice and assigns
  only in the branch for a command without children.
\<close>

fun walk :: "Command list \<Rightarrow> string list \<Rightarrow> Command list \<times> string list" where
  "walk cmds [] = (cmds, [])"
| "walk cmds (arg # rest) =
     (let lst = last cmds in
      if length (Children lst) = 0 then (cmds, arg # rest)
      else
        (case matching_child lst arg of
           None \<Rightarrow> (cmds, [])
         | Some cmd \<Rightarrow> walk (cmds @ [cmd]) rest))"

text \<open>
  Lines 82 to 116 of \<^verbatim>\<open>run\<close>: register the flags, parse, walk, and build the
  \<^verbatim>\<open>Cli\<close>. The parse error is kept beside it.
\<close>

definition resolve :: "Command \<Rightarrow> string list \<Rightarrow> (error option \<times> Cli) result" where
  "resolve root argv =
     (case registerFlags root Map.empty of
        Returned formal \<Rightarrow>
          (case Parse formal argv of (cliParseError, parsedFlags, args) \<Rightarrow>
            (case walk [root] args of (cmds, positionals) \<Rightarrow>
               Returned (cliParseError,
                         \<lparr>flags = parsedFlags, arguments = positionals, path = cmds\<rparr>)))
      | Failed e \<Rightarrow> Failed e
      | Panicked p \<Rightarrow> Panicked p)"

text \<open>\<^verbatim>\<open>configureLog\<close> reads the \<^verbatim>\<open>verbose\<close> flag to decide on the extra writer.\<close>

definition configureLog :: "Cli \<Rightarrow> bool result" where
  "configureLog cli = Cli_Bool cli ''verbose''"

text \<open>
  The first-run installation of the two tools; what \<^verbatim>\<open>global.NeedsPulumi\<close>,
  \<^verbatim>\<open>global.InstallPulumi\<close>, \<^verbatim>\<open>global.NeedsBun\<close> and \<^verbatim>\<open>global.InstallBun\<close> return
  is given by the environment.
\<close>

record toolchain =
  NeedsPulumi :: bool
  InstallPulumi :: "error option"
  NeedsBun :: bool
  InstallBun :: "error option"

definition install_tools :: "toolchain \<Rightarrow> error option" where
  "install_tools env =
     (case (if NeedsPulumi env then InstallPulumi env else None) of
        Some err \<Rightarrow> Some err
      | None \<Rightarrow> (if NeedsBun env then InstallBun env else None))"

text \<open>What \<^verbatim>\<open>run\<close> ends up doing.\<close>

datatype action =
    PrintHelp "Command list"
  | Invoke handler Cli
  | ReturnError error
  | Panic panic

fun count_required :: "Argument list \<Rightarrow> nat" where
  "count_required [] = 0"
| "count_required (arg # rest) =
     (if \<not> arg_Required arg then count_required rest else count_required rest + 1)"

text \<open>Lines 141 to 154 of \<^verbatim>\<open>run\<close>; the disjunction is evaluated left to right.\<close>

definition dispatch :: "Cli \<Rightarrow> action" where
  "dispatch cli =
     (let active = last (path cli);
          required = count_required (Args active)
      in case Cli_Bool cli ''help'' of
           Returned help \<Rightarrow>
             (if help then PrintHelp (path cli)
              else
                (case Run active of
                   None \<Rightarrow> PrintHelp (path cli)
                 | Some handler \<Rightarrow>
                     (if length (arguments cli) < required then PrintHelp (path cli)
                      else Invoke handler cli)))
         | Failed e \<Rightarrow> ReturnError e
         | Panicked p \<Rightarrow> Panic p)"

text \<open>
  \<^verbatim>\<open>run\<close>, from the registration of the flags to the decision between help and
  handler. Loading the dotenv file, the interrupt handling and the spinner do not bear
  on that decision and are left out.
\<close>

definition run :: "Command \<Rightarrow> toolchain \<Rightarrow> string list \<Rightarrow> action" where
  "run root env argv =
     (case resolve root argv of
        Returned (cliParseError, cli) \<Rightarrow>
          (case configureLog cli of
             Returned _ \<Rightarrow>
               (if cliParseError \<noteq> None then PrintHelp (path cli)
                else
                  (case install_tools env of
                     Some err \<Rightarrow> ReturnError err
                   | None \<Rightarrow> dispatch cli))
           | Failed e \<Rightarrow> ReturnError e
           | Panicked p \<Rightarrow> Panic p)
      | Failed e \<Rightarrow> ReturnError e
      | Panicked p \<Rightarrow> Panic p)"

subsection \<open>The command table\<close>

definition secret_set :: Command where
  "secret_set = Command ''set'' False
     [Argument ''name'' True, Argument ''value'' True] [] [] (Some RunSecretSet)"

definition secret_remove :: Command where
  "secret_remove = Command ''remove'' False [Argument ''name'' True] [] [] (Some RunSecretRemove)"

definition secret_list :: Command where
  "secret_list = Command ''list'' False [] [] [] (Some RunSecretList)"

definition secret :: Command where
  "secret = Command ''secret'' False [] [] [secret_set, secret_remove, secret_list] None"

definition telemetry :: Command where
  "telemetry = Command ''telemetry'' False [] []
     [Command ''enable'' False [] [] [] (Some RunTelemetryEnable),
      Command ''disable'' False [] [] [] (Some RunTelemetryDisable)] None"

definition import_unstable :: Command where
  "import_unstable = Command ''import-unstable'' True
     [Argument ''type'' True, Argument ''name'' True, Argument ''id'' True]
     [Flag ''parent'' ''string''] [] (Some RunImportUnstable)"

definition state_edit :: Command where
  "state_edit = Command ''edit'' False [] [] [] (Some RunStateEdit)"

definition state :: Command where
  "state = Command ''state'' True [] [] [state_edit] None"

definition Root :: Command where
  "Root = Command ''sst'' False []
     [Flag ''stage'' ''string'', Flag ''verbose'' ''bool'', Flag ''help'' ''bool'']
     [Command ''init'' False [] [] [] (Some CmdInit),
      Command ''dev'' False [Argument ''command'' False] [] [] (Some CmdDev),
      Command ''deploy'' False [] [] [] (Some RunDeploy),
      Command ''add'' False [Argument ''provider'' True] [] [] (Some RunAdd),
      Command ''install'' False [] [] [] (Some RunInstall),
      secret,
      Command ''shell'' False [Argument ''command'' False] [] [] (Some RunShell),
      Command ''remove'' False [] [] [] (Some RunRemove),
      Command ''unlock'' False [] [] [] (Some RunUnlock),
      Command ''version'' False [] [] [] (Some RunVersion),
      Command ''upgrade'' False [Argument ''version'' False] [] [] (Some RunUpgrade),
      telemetry,
      import_unstable,
      Command ''server'' True [] [] [] (Some RunServer),
      Command ''introspect'' True [] [] [] (Some RunIntrospect),
      Command ''refresh'' True [] [] [] (Some RunRefresh),
      state]
     None"

text \<open>
  The flag values right after \<^verbatim>\<open>Root.registerFlags(parsedFlags)\<close>: the three global
  flags and the \<^verbatim>\<open>parent\<close> flag of \<^verbatim>\<open>import-unstable\<close>, at their defaults (lemma
  \<open>registerFlags_Root\<close> below).
\<close>

definition root_flags :: flagset where
  "root_flags = [''stage'' \<mapsto> StringVal [], ''verbose'' \<mapsto> BoolVal False,
                 ''help'' \<mapsto> BoolVal False, ''parent'' \<mapsto> StringVal []]"

text \<open>An environment in which both tools are already installed.\<close>

definition tools_present :: toolchain where
  "tools_present = \<lparr>NeedsPulumi = False, InstallPulumi = None, NeedsBun = False, InstallBun = None\<rparr>"

section \<open>Handlers\<close>

text \<open>
  A handler returns \<^verbatim>\<open>nil\<close> (\<open>Returned ()\<close>) or an error (\<open>Failed\<close>). What it does to
  its collaborators is recorded as the list of calls it makes, in order.
\<close>

datatype call =
    CallInitProject
  | CallCleanup
  | CallLock
  | CallUnlock
  | CallPullState
  | CallStartEditor string string
  | CallWaitEditor
  | CallPushState
  | CallGetSecrets string string
  | CallPutSecrets string string
  | CallUiSuccess string
  | CallServerNew
  | CallServerStart

text \<open>
  The running function: the calls made so far and the calls registered with
  \<^verbatim>\<open>defer\<close>, the most recent first. Returning runs the deferred calls in that order.
\<close>

record frame =
  made :: "call list"
  deferred :: "call list"

definition entry :: frame where
  "entry = \<lparr>made = [], deferred = []\<rparr>"

definition invoke :: "call \<Rightarrow> frame \<Rightarrow> frame" where
  "invoke c f = f\<lparr>made := made f @ [c]\<rparr>"

definition defer_call :: "call \<Rightarrow> frame \<Rightarrow> frame" where
  "defer_call c f = f\<lparr>deferred := c # deferred f\<rparr>"

definition return_from :: "frame \<Rightarrow> 'a \<Rightarrow> call list \<times> 'a" where
  "return_from f r = (made f @ deferred f, r)"

text \<open>\<^verbatim>\<open>util.NewReadableError(err, message)\<close>; a nil \<^verbatim>\<open>err\<close> is \<open>None\<close>.\<close>

definition NewReadableError :: "error option \<Rightarrow> string \<Rightarrow> error" where
  "NewReadableError err message = ReadableError err message"


subsection \<open>\<^verbatim>\<open>state edit\<close>\<close>

text \<open>
  What the collaborators of the \<^verbatim>\<open>state edit\<close> handler answer: \<^verbatim>\<open>initProject\<close>,
  \<^verbatim>\<open>Stack.Lock\<close>, \<^verbatim>\<open>Stack.PullState\<close> (an error or the path of the local copy), the
  \<^verbatim>\<open>EDITOR\<close> variable, starting the editor, waiting for it, and \<^verbatim>\<open>Stack.PushState\<close>.
\<close>

record edit_env =
  edit_initProject :: "error option"
  edit_Lock :: "error option"
  edit_PullState :: "error + string"
  edit_EDITOR :: string
  edit_Start :: "error option"
  edit_Wait :: "error option"
  edit_PushState :: "error option"

definition as_result :: "error option \<Rightarrow> unit result" where
  "as_result err = (case err of None \<Rightarrow> Returned () | Some e \<Rightarrow> Failed e)"

definition state_edit_Run :: "edit_env \<Rightarrow> call list \<times> unit result" where
  "state_edit_Run env =
     (let f = invoke CallInitProject entry in
      case edit_initProject env of
        Some err \<Rightarrow> return_from f (Failed err)
      | None \<Rightarrow>
          (let f = defer_call CallCleanup f;
               f = invoke CallLock f
           in case edit_Lock env of
                Some err \<Rightarrow>
                  return_from f (Failed (NewReadableError (Some err) ''Could not lock state''))
              | None \<Rightarrow>
                  (let f = defer_call CallUnlock f;
                       f = invoke CallPullState f
                   in case edit_PullState env of
                        Inl err \<Rightarrow>
                          return_from f (Failed (NewReadableError (Some err) ''Could not pull state''))
                      | Inr file \<Rightarrow>
                          (let editor = (if edit_EDITOR env = [] then ''vim'' else edit_EDITOR env);
                               f = invoke (CallStartEditor editor file) f
                           in case edit_Start env of
                                Some err \<Rightarrow>
                                  return_from f
                                    (Failed (NewReadableError (Some err) ''Could not start editor''))
                              | None \<Rightarrow>
                                  (let f = invoke CallWaitEditor f
                                   in case edit_Wait env of
                                        Some err \<Rightarrow>
                                          return_from f
                                            (Failed (NewReadableError (Some err)
                                                       ''Editor exited with error''))
                                      | None \<Rightarrow>
                                          (let f = invoke CallPushState f
                                           in return_from f (as_result (edit_PushState env))))))))"

subsection \<open>\<^verbatim>\<open>secret remove\<close>\<close>

text \<open>The application name and stage of an initialised project.\<close>

record app =
  app_Name :: string
  app_Stage :: string

text \<open>
  Modelled from the spec: the secrets functions of the \<^verbatim>\<open>provider\<close> package are not
  among the sources. The specification gives \<^verbatim>\<open>getSecrets(app, stage)\<close>, returning a map
  from names to values, and \<^verbatim>\<open>putSecrets(app, stage, map)\<close>, on a store scoped by
  application and stage. Either may fail; the failure is part of the backend here.
\<close>

record backend =
  stored :: "string \<times> string \<Rightarrow> (string \<rightharpoonup> string)"
  get_error :: "error option"
  put_error :: "error option"

definition GetSecrets :: "backend \<Rightarrow> string \<Rightarrow> string \<Rightarrow> error + (string \<rightharpoonup> string)" where
  "GetSecrets b name stage =
     (case get_error b of Some err \<Rightarrow> Inl err | None \<Rightarrow> Inr (stored b (name, stage)))"

definition PutSecrets ::
  "backend \<Rightarrow> string \<Rightarrow> string \<Rightarrow> (string \<rightharpoonup> string) \<Rightarrow> error option \<times> backend" where
  "PutSecrets b name stage secrets =
     (case put_error b of
        Some err \<Rightarrow> (Some err, b)
      | None \<Rightarrow> (None, b\<lparr>stored := (stored b)((name, stage) := secrets)\<rparr>))"

definition quoted :: "string \<Rightarrow> string" where
  "quoted str = [CHR 0x22] @ str @ [CHR 0x22]"

text \<open>
  The \<^verbatim>\<open>Run\<close> of \<^verbatim>\<open>secret remove\<close>: the calls made, the result, and the backend
  afterwards. The first argument is what \<^verbatim>\<open>initProject\<close> returns.
\<close>

definition secret_remove_Run ::
  "error + app \<Rightarrow> Cli \<Rightarrow> backend \<Rightarrow> (call list \<times> unit result) \<times> backend" where
  "secret_remove_Run init cli b =
     (case Positional cli 0 of
        Returned key \<Rightarrow>
          (let f = invoke CallInitProject entry in
           case init of
             Inl err \<Rightarrow> (return_from f (Failed err), b)
           | Inr p \<Rightarrow>
               (let f = defer_call CallCleanup f;
                    f = invoke (CallGetSecrets (app_Name p) (app_Stage p)) f
                in case GetSecrets b (app_Name p) (app_Stage p) of
                     Inl err \<Rightarrow>
                       (return_from f (Failed (NewReadableError (Some err) ''Could not get secrets'')), b)
                   | Inr secrets \<Rightarrow>
                       (if secrets key = None
                        then (return_from f
                                (Failed (NewReadableError None
                                   (''Secret '' @ quoted key @ '' does not exist for stage ''
                                      @ quoted (app_Stage p)))), b)
                        else
                          (let secrets = secrets(key := None);
                               f = invoke (CallPutSecrets (app_Name p) (app_Stage p)) f
                           in case PutSecrets b (app_Name p) (app_Stage p) secrets of
                                (Some err, b1) \<Rightarrow>
                                  (return_from f
                                     (Failed (NewReadableError (Some err) ''Could not set secret'')), b1)
                              | (None, b1) \<Rightarrow>
                                  (let f = invoke (CallUiSuccess
                                          (''Removed '' @ quoted key @ '' for stage ''
                                             @ quoted (app_Stage p))) f
                                   in (return_from f (Returned ()), b1))))))
      | Failed e \<Rightarrow> ((([], Failed e)), b)
      | Panicked p \<Rightarrow> (([], Panicked p), b))"

subsection \<open>\<^verbatim>\<open>server\<close>\<close>




section \<open>The process\<close>




section \<open>Properties\<close>

subsection \<open>Positional arguments\<close>

text \<open>
  C10. \<^verbatim>\<open>Cli.Positional\<close> does not fail past the end of the parsed positionals: for
  every index greater than or equal to their number it returns the empty string. A
  handler that reads an optional positional that was not supplied sees the empty string.
\<close>

theorem Positional_beyond_end:
  "int (length (arguments c)) \<le> index \<Longrightarrow> Positional c index = Returned []"
  by (simp add: Positional_def)

theorem Positional_beyond_end_witness:
  "int (length (arguments \<lparr>flags = Map.empty, arguments = [''0.10''], path = []\<rparr>)) \<le> 1
   \<and> Positional \<lparr>flags = Map.empty, arguments = [''0.10''], path = []\<rparr> 1 = Returned []"
  using Positional_beyond_end [of "\<lparr>flags = Map.empty, arguments = [''0.10''], path = []\<rparr>" 1]
  by simp

subsection \<open>Stage guess\<close>

lemma ToLower_ASCII: "isASCII u \<Longrightarrow> ToLower unicode u = map lower_byte u"
  by (simp add: ToLower_def)

lemma ToLower_unchanged:
  "isASCII u \<Longrightarrow> \<forall>c \<in> set u. \<not> (65 \<le> (of_char c :: nat) \<and> (of_char c :: nat) \<le> 90) \<Longrightarrow>
     ToLower unicode u = u"
  by (induction u) (auto simp: ToLower_def isASCII_def lower_byte_def Let_def)

text \<open>
  C6, as the specification words it: the guess is empty for the five listed names and
  the literal user name otherwise. The user name \<open>Alice\<close> is not listed, and the guess
  is \<open>alice\<close>: the code lower-cases the name before it compares and returns it.
\<close>

theorem guessStage_literal_counterexample:
  "''Alice'' \<notin> denylisted \<and> isASCII ''Alice''
   \<and> guessStage no_mapping (Inr ''Alice'') = ''alice''
   \<and> guessStage no_mapping (Inr ''Alice'') \<noteq> ''Alice''"
  by code_simp

text \<open>
  C6, amended: the guess is empty when the user lookup fails or when the lower-cased
  user name is one of \<open>root\<close>, \<open>admin\<close>, \<open>prod\<close>, \<open>dev\<close>, \<open>production\<close>, and it is the
  lower-cased user name otherwise. Lower-casing is that of \<^verbatim>\<open>strings.ToLower\<close>: on an
  ASCII name the letters \<open>A\<close> to \<open>Z\<close> become \<open>a\<close> to \<open>z\<close> and nothing else changes; a
  name with a byte from 128 on goes through the Unicode case mapping.
\<close>

theorem guessStage_lowercased:
  "guessStage unicode (Inl e) = []
   \<and> (ToLower unicode u \<in> denylisted \<longrightarrow> guessStage unicode (Inr u) = [])
   \<and> (ToLower unicode u \<notin> denylisted \<longrightarrow> guessStage unicode (Inr u) = ToLower unicode u)
   \<and> (isASCII u \<longrightarrow> ToLower unicode u = map lower_byte u)
   \<and> (\<not> isASCII u \<longrightarrow> ToLower unicode u = unicode u)"
  by (simp add: guessStage_def ToLower_def denylisted_def Let_def)

theorem guessStage_lowercased_witness:
  "ToLower no_mapping ''ROOT'' \<in> denylisted \<and> guessStage no_mapping (Inr ''ROOT'') = []
   \<and> ToLower no_mapping ''Alice'' \<notin> denylisted
   \<and> guessStage no_mapping (Inr ''Alice'') = ToLower no_mapping ''Alice''
   \<and> isASCII ''Alice'' \<and> ToLower no_mapping ''Alice'' = ''alice''
   \<and> \<not> isASCII (''ADM'' @ [CHR 0xC4, CHR 0xB0] @ ''N'')
   \<and> ToLower dotted_I (''ADM'' @ [CHR 0xC4, CHR 0xB0] @ ''N'') = ''admin''
   \<and> guessStage dotted_I (Inr (''ADM'' @ [CHR 0xC4, CHR 0xB0] @ ''N'')) = []"
proof -
  let ?admin = "''ADM'' @ [CHR 0xC4, CHR 0xB0] @ ''N''"
  have listed: "ToLower no_mapping ''ROOT'' \<in> denylisted" by code_simp
  have free: "ToLower no_mapping ''Alice'' \<notin> denylisted" by code_simp
  have ascii: "isASCII ''Alice''" by code_simp
  have lowered: "map lower_byte ''Alice'' = ''alice''" by code_simp
  have beyond: "\<not> isASCII ?admin" by code_simp
  have mapped: "dotted_I ?admin = ''admin''" by (simp add: dotted_I_def)
  from listed guessStage_lowercased [of no_mapping "Err []" "''ROOT''"]
  have g1: "guessStage no_mapping (Inr ''ROOT'') = []" by blast
  from free guessStage_lowercased [of no_mapping "Err []" "''Alice''"]
  have g2: "guessStage no_mapping (Inr ''Alice'') = ToLower no_mapping ''Alice''" by blast
  from ascii lowered guessStage_lowercased [of no_mapping "Err []" "''Alice''"]
  have g3: "ToLower no_mapping ''Alice'' = ''alice''" by simp
  from beyond mapped guessStage_lowercased [of dotted_I "Err []" ?admin]
  have g4: "ToLower dotted_I ?admin = ''admin''" by simp
  then have "ToLower dotted_I ?admin \<in> denylisted" by (simp add: denylisted_def)
  with guessStage_lowercased [of dotted_I "Err []" ?admin]
  have g5: "guessStage dotted_I (Inr ?admin) = []" by blast
  from listed free ascii beyond g1 g2 g3 g4 g5 show ?thesis by blast
qed

subsection \<open>The walk over the command tree\<close>

lemmas table_defs =
  Root_def secret_def secret_set_def secret_remove_def secret_list_def telemetry_def
  import_unstable_def state_def state_edit_def

lemma matching_child_Some:
  "matching_child lst arg = Some cmd \<Longrightarrow> Name cmd = arg \<and> cmd \<in> set (Children lst)"
  by (auto simp: matching_child_def find_Some_iff)

lemma walk_general:
  "cmds \<noteq> [] \<Longrightarrow> walk cmds args = (p, pos) \<Longrightarrow>
    \<exists>d. p = cmds @ d \<and> length d \<le> length args \<and> map Name d = take (length d) args
      \<and> (length (Children (last p)) = 0 \<longrightarrow> pos = drop (length d) args)
      \<and> (length (Children (last p)) \<noteq> 0 \<longrightarrow> pos = []
           \<and> (length d < length args \<longrightarrow> matching_child (last p) (args ! length d) = None))"
proof (induction args arbitrary: cmds)
  case Nil
  then show ?case by auto
next
  case (Cons arg rest)
  show ?case
  proof (cases "length (Children (last cmds)) = 0")
    case True
    with Cons.prems show ?thesis by auto
  next
    case False
    show ?thesis
    proof (cases "matching_child (last cmds) arg")
      case None
      with False Cons.prems show ?thesis by auto
    next
      case (Some cmd)
      with False Cons.prems have w: "walk (cmds @ [cmd]) rest = (p, pos)" by simp
      from Cons.IH [OF _ w] obtain d where d: "p = (cmds @ [cmd]) @ d" "length d \<le> length rest"
        "map Name d = take (length d) rest"
        "length (Children (last p)) = 0 \<longrightarrow> pos = drop (length d) rest"
        "length (Children (last p)) \<noteq> 0 \<longrightarrow> pos = []
           \<and> (length d < length rest \<longrightarrow> matching_child (last p) (rest ! length d) = None)"
        by auto
      from Some have n: "Name cmd = arg" by (simp add: matching_child_Some)
      show ?thesis
        apply (rule exI [of _ "cmd # d"])
        using d n by auto
    qed
  qed
qed

text \<open>
  C2, as the specification words it: when the walk stops, whether on a token that
  matches no child or at a command without children, the unconsumed tokens become the
  positionals. At the root, \<open>bogus\<close> matches no child; the walk stops there with the
  token unconsumed, and the positionals are empty, not \<open>[bogus]\<close>.
\<close>

theorem walk_mismatch_counterexample:
  "matching_child Root ''bogus'' = None \<and> length (Children Root) \<noteq> 0
   \<and> walk [Root] [''bogus''] = ([Root], [])
   \<and> snd (walk [Root] [''bogus'']) \<noteq> [''bogus'']"
  by (simp add: matching_child_def table_defs Let_def)

text \<open>
  C2, amended. Let \<open>p\<close> be the path the walk ends with and \<open>k = length p - 1\<close> the
  number of tokens it consumed (the names of the commands after the root are exactly
  those tokens). When the walk stops at a command without children, the tokens from
  \<open>k\<close> on become the positionals. When it stops at a command that has children, either
  because the next token matches none of them or because the tokens ran out, the
  positionals are empty.
\<close>

theorem walk_positionals:
  assumes "walk [root] args = (p, positionals)"
  shows "length p - 1 \<le> length args
     \<and> map Name p = Name root # take (length p - 1) args
     \<and> (length (Children (last p)) = 0 \<longrightarrow> positionals = drop (length p - 1) args)
     \<and> (length (Children (last p)) \<noteq> 0 \<longrightarrow> positionals = []
           \<and> (length p - 1 < length args
                \<longrightarrow> matching_child (last p) (args ! (length p - 1)) = None))"
proof -
  from walk_general [OF _ assms] obtain d where
    "p = [root] @ d \<and> length d \<le> length args \<and> map Name d = take (length d) args
      \<and> (length (Children (last p)) = 0 \<longrightarrow> positionals = drop (length d) args)
      \<and> (length (Children (last p)) \<noteq> 0 \<longrightarrow> positionals = []
           \<and> (length d < length args \<longrightarrow> matching_child (last p) (args ! length d) = None))"
    by blast
  then show ?thesis by auto
qed

theorem walk_positionals_witness:
  "walk [Root] [''secret'', ''set'', ''Foo'', ''bar''] = ([Root, secret, secret_set], [''Foo'', ''bar''])
   \<and> length (Children (last [Root, secret, secret_set])) = 0
   \<and> [''Foo'', ''bar''] = drop (length [Root, secret, secret_set] - 1) [''secret'', ''set'', ''Foo'', ''bar'']
   \<and> walk [Root] [''secret'', ''bogus'', ''x''] = ([Root, secret], [])
   \<and> length (Children (last [Root, secret])) \<noteq> 0
   \<and> length [Root, secret] - 1 < length [''secret'', ''bogus'', ''x'']
   \<and> matching_child (last [Root, secret]) ([''secret'', ''bogus'', ''x''] ! (length [Root, secret] - 1)) = None"
proof -
  have leaf: "walk [Root] [''secret'', ''set'', ''Foo'', ''bar'']
                = ([Root, secret, secret_set], [''Foo'', ''bar''])"
    by (simp add: matching_child_def table_defs Let_def)
  have inner: "walk [Root] [''secret'', ''bogus'', ''x''] = ([Root, secret], [])"
    by (simp add: matching_child_def table_defs Let_def)
  have no_children: "length (Children (last [Root, secret, secret_set])) = 0"
    by (simp add: secret_set_def)
  have children: "length (Children (last [Root, secret])) \<noteq> 0"
    by (simp add: secret_def)
  have more: "length [Root, secret] - 1 < length [''secret'', ''bogus'', ''x'']"
    by simp
  from walk_positionals [OF leaf] no_children
  have "[''Foo'', ''bar''] = drop (length [Root, secret, secret_set] - 1) [''secret'', ''set'', ''Foo'', ''bar'']"
    by blast
  moreover from walk_positionals [OF inner] children more
  have "matching_child (last [Root, secret]) ([''secret'', ''bogus'', ''x''] ! (length [Root, secret] - 1)) = None"
    by blast
  ultimately show ?thesis using leaf inner no_children children more by blast
qed

subsection \<open>Flags of the command table\<close>

lemma registerFlags_Root: "registerFlags Root Map.empty = Returned root_flags"
  by (simp add: table_defs register_one_def define_flag_def root_flags_def)

lemma set_value_kind: "set_value old v = Inr new \<Longrightarrow> is_bool_flag new = is_bool_flag old"
  by (cases old) (auto simp: set_value_def split: option.splits)

lemma parseLongArg_kind:
  "parseLongArg formal s a = Inr (formal1, used) \<Longrightarrow>
     map_option is_bool_flag (formal1 n) = map_option is_bool_flag (formal n)"
  by (auto simp: parseLongArg_def Let_def split: if_splits prod.splits option.splits sum.splits
        flag_value.splits list.splits dest: set_value_kind)

text \<open>Parsing never changes whether a flag holds a string or a bool.\<close>

lemma parseArgs_kind:
  "parseArgs formal toks args = (e, formal1, args1) \<Longrightarrow>
     map_option is_bool_flag (formal1 n) = map_option is_bool_flag (formal n)"
proof (induction formal toks args rule: parseArgs.induct)
  case (1 formal args)
  then show ?case by simp
next
  case (2 formal s rest args)
  show ?case
  proof (cases "length s = 0 \<or> hd s \<noteq> CHR ''-'' \<or> length s = 1")
    case True
    with 2 show ?thesis by simp
  next
    case plain: False
    show ?thesis
    proof (cases "s ! 1 = CHR ''-''")
      case long: True
      show ?thesis
      proof (cases "length s = 2")
        case True
        with plain long "2.prems" show ?thesis by simp
      next
        case False
        show ?thesis
        proof (cases "parseLongArg formal s rest")
          case (Inl err)
          with plain long False "2.prems" show ?thesis by simp
        next
          case (Inr r)
          obtain formal2 used where r: "r = (formal2, used)" by (cases r)
          with Inr plain long False "2.prems"
          have "parseArgs formal2 (drop used rest) args = (e, formal1, args1)" by simp
          with "2.IH"(2) [OF plain long False Inr r [symmetric]]
          have "map_option is_bool_flag (formal1 n) = map_option is_bool_flag (formal2 n)"
            by simp
          with parseLongArg_kind [of formal s rest formal2 used n] Inr r show ?thesis by simp
        qed
      qed
    next
      case short: False
      show ?thesis
      proof (cases "parseShortArg s")
        case None
        with plain short 2 show ?thesis by simp
      next
        case (Some err)
        with plain short "2.prems" show ?thesis by simp
      qed
    qed
  qed
qed

lemma resolve_Root_flags:
  assumes "resolve Root argv = Returned (perr, cli)"
  shows "\<exists>h v. flags cli ''help'' = Some (BoolVal h) \<and> flags cli ''verbose'' = Some (BoolVal v)"
proof -
  obtain e fs as where P: "Parse root_flags argv = (e, fs, as)"
    by (cases "Parse root_flags argv")
  with assms have f: "flags cli = fs"
    by (auto simp: resolve_def registerFlags_Root split: prod.splits)
  from P have k: "map_option is_bool_flag (fs n) = map_option is_bool_flag (root_flags n)" for n
    unfolding Parse_def by (rule parseArgs_kind)
  from k [of "''help''"] obtain h where "fs ''help'' = Some (BoolVal h)"
    by (cases "fs ''help''"; cases "the (fs ''help'')") (auto simp: root_flags_def)
  moreover from k [of "''verbose''"] obtain v where "fs ''verbose'' = Some (BoolVal v)"
    by (cases "fs ''verbose''"; cases "the (fs ''verbose'')") (auto simp: root_flags_def)
  ultimately show ?thesis using f by simp
qed

text \<open>Registration of the table's flags does not panic, so resolution always returns.\<close>

lemma resolve_Root_returns: "\<exists>perr cli. resolve Root argv = Returned (perr, cli)"
  by (auto simp: resolve_def registerFlags_Root split: prod.splits)

lemma count_required_filter: "count_required as = length (filter arg_Required as)"
  by (induction as) auto

subsection \<open>Two resolutions\<close>

lemma root_flags_lookup:
  "root_flags ''stage'' = Some (StringVal [])"
  "root_flags ''help'' = Some (BoolVal False)"
  "root_flags ''verbose'' = Some (BoolVal False)"
  by (simp_all add: root_flags_def)

lemma resolve_secret_set:
  "resolve Root [''secret'', ''set'', ''Foo'', ''bar'', ''--stage=prod'']
     = Returned (None, \<lparr>flags = root_flags(''stage'' \<mapsto> StringVal ''prod''),
                         arguments = [''Foo'', ''bar''],
                         path = [Root, secret, secret_set]\<rparr>)"
proof -
  have "Parse root_flags [''secret'', ''set'', ''Foo'', ''bar'', ''--stage=prod'']
          = (None, root_flags(''stage'' \<mapsto> StringVal ''prod''), [''secret'', ''set'', ''Foo'', ''bar''])"
    by (simp add: Parse_def parseLongArg_def split_name_def set_value_def Let_def
          root_flags_lookup)
  moreover have "walk [Root] [''secret'', ''set'', ''Foo'', ''bar'']
          = ([Root, secret, secret_set], [''Foo'', ''bar''])"
    by (simp add: matching_child_def table_defs Let_def)
  ultimately show ?thesis
    by (simp add: resolve_def registerFlags_Root)
qed

lemma resolve_bogus:
  "resolve Root [''bogus''] = Returned (None, \<lparr>flags = root_flags, arguments = [], path = [Root]\<rparr>)"
proof -
  have "Parse root_flags [''bogus''] = (None, root_flags, [''bogus''])"
    by (simp add: Parse_def)
  moreover have "walk [Root] [''bogus''] = ([Root], [])"
    by (simp add: matching_child_def table_defs Let_def)
  ultimately show ?thesis
    by (simp add: resolve_def registerFlags_Root)
qed

lemma dispatch_bogus:
  "dispatch \<lparr>flags = root_flags, arguments = [], path = [Root]\<rparr> = PrintHelp [Root]"
  by (simp add: dispatch_def Cli_Bool_def root_flags_lookup Let_def Root_def)

text \<open>
  C3. The argument vector \<open>secret set Foo bar --stage=prod\<close> resolves, without a parse
  error, to the path root, \<open>secret\<close>, \<open>set\<close> with the positionals \<open>Foo\<close> and \<open>bar\<close> and
  with \<open>prod\<close> under \<open>stage\<close> in the flag map. The argument vector \<open>bogus\<close> stays at the
  root with no positionals, and \<^verbatim>\<open>run\<close> renders the help of the root path instead of
  invoking a handler (unless the first-run tool installation fails before that).
\<close>

theorem resolve_secret_set_and_bogus:
  "resolve Root [''secret'', ''set'', ''Foo'', ''bar'', ''--stage=prod'']
     = Returned (None, \<lparr>flags = root_flags(''stage'' \<mapsto> StringVal ''prod''),
                         arguments = [''Foo'', ''bar''],
                         path = [Root, secret, secret_set]\<rparr>)
   \<and> map Name [Root, secret, secret_set] = [''sst'', ''secret'', ''set'']
   \<and> Cli_String \<lparr>flags = root_flags(''stage'' \<mapsto> StringVal ''prod''),
                  arguments = [''Foo'', ''bar''],
                  path = [Root, secret, secret_set]\<rparr> ''stage'' = Returned ''prod''
   \<and> resolve Root [''bogus'']
       = Returned (None, \<lparr>flags = root_flags, arguments = [], path = [Root]\<rparr>)
   \<and> dispatch \<lparr>flags = root_flags, arguments = [], path = [Root]\<rparr> = PrintHelp [Root]
   \<and> run Root env [''bogus'']
       = (case install_tools env of Some err \<Rightarrow> ReturnError err | None \<Rightarrow> PrintHelp [Root])"
proof -
  have names: "map Name [Root, secret, secret_set] = [''sst'', ''secret'', ''set'']"
    by (simp add: table_defs)
  have stage: "Cli_String \<lparr>flags = root_flags(''stage'' \<mapsto> StringVal ''prod''),
                  arguments = [''Foo'', ''bar''],
                  path = [Root, secret, secret_set]\<rparr> ''stage'' = Returned ''prod''"
    by (simp add: Cli_String_def)
  have "run Root env [''bogus'']
       = (case install_tools env of Some err \<Rightarrow> ReturnError err | None \<Rightarrow> PrintHelp [Root])"
    by (simp add: run_def resolve_bogus configureLog_def Cli_Bool_def root_flags_lookup
          dispatch_bogus split: option.splits)
  with names stage resolve_secret_set resolve_bogus dispatch_bogus show ?thesis
    by blast
qed

theorem resolve_secret_set_and_bogus_witness:
  "install_tools tools_present = None
   \<and> run Root tools_present [''bogus''] = PrintHelp [Root]
   \<and> Cli_String \<lparr>flags = root_flags(''stage'' \<mapsto> StringVal ''prod''),
                  arguments = [''Foo'', ''bar''],
                  path = [Root, secret, secret_set]\<rparr> ''stage'' = Returned ''prod''"
proof -
  have tools: "install_tools tools_present = None"
    by (simp add: install_tools_def tools_present_def)
  with resolve_secret_set_and_bogus [of tools_present] show ?thesis
    by simp
qed

subsection \<open>Help or handler\<close>

lemma resolve_deploy_help:
  "resolve Root [''deploy'', ''--help'']
     = Returned (None, \<lparr>flags = root_flags(''help'' \<mapsto> BoolVal True), arguments = [],
                         path = [Root, Command ''deploy'' False [] [] [] (Some RunDeploy)]\<rparr>)"
proof -
  have "Parse root_flags [''deploy'', ''--help'']
          = (None, root_flags(''help'' \<mapsto> BoolVal True), [''deploy''])"
    by (simp add: Parse_def parseLongArg_def split_name_def Let_def root_flags_lookup)
  moreover have "walk [Root] [''deploy'']
          = ([Root, Command ''deploy'' False [] [] [] (Some RunDeploy)], [])"
    by (simp add: matching_child_def table_defs Let_def)
  ultimately show ?thesis
    by (simp add: resolve_def registerFlags_Root)
qed

lemma resolve_secret:
  "resolve Root [''secret'']
     = Returned (None, \<lparr>flags = root_flags, arguments = [], path = [Root, secret]\<rparr>)"
proof -
  have "Parse root_flags [''secret''] = (None, root_flags, [''secret''])"
    by (simp add: Parse_def)
  moreover have "walk [Root] [''secret''] = ([Root, secret], [])"
    by (simp add: matching_child_def table_defs Let_def)
  ultimately show ?thesis
    by (simp add: resolve_def registerFlags_Root)
qed

text \<open>
  C4. For every argument vector that resolves without a parse error, once the tool
  installation has not failed, \<^verbatim>\<open>run\<close> renders the help of the resolved path exactly
  when the help flag is set (the flag map holds true under \<open>help\<close>, which is what
  \<^verbatim>\<open>cli.Bool("help")\<close> returns), or the resolved command has no \<^verbatim>\<open>Run\<close>, or fewer
  positionals were received than the command has required arguments; otherwise it
  invokes the command's \<^verbatim>\<open>Run\<close> on the resolved \<^verbatim>\<open>Cli\<close>.
\<close>

theorem run_help_or_handler:
  assumes "resolve Root argv = Returned (None, cli)" and "install_tools env = None"
  shows "(run Root env argv = PrintHelp (path cli))
          = (flags cli ''help'' = Some (BoolVal True)
             \<or> Run (last (path cli)) = None
             \<or> length (arguments cli) < length (filter arg_Required (Args (last (path cli)))))
      \<and> Cli_Bool cli ''help'' = Returned (flags cli ''help'' = Some (BoolVal True))
      \<and> (run Root env argv \<noteq> PrintHelp (path cli)
          \<longrightarrow> Run (last (path cli)) \<noteq> None
              \<and> run Root env argv = Invoke (the (Run (last (path cli)))) cli)"
proof -
  from resolve_Root_flags [OF assms(1)] obtain h v where
    hv: "flags cli ''help'' = Some (BoolVal h)" "flags cli ''verbose'' = Some (BoolVal v)"
    by blast
  have "run Root env argv = dispatch cli"
    using assms hv by (simp add: run_def configureLog_def Cli_Bool_def)
  then show ?thesis
    using hv
    by (auto simp: dispatch_def Cli_Bool_def Let_def count_required_filter split: option.splits)
qed

theorem run_help_or_handler_witness:
  "resolve Root [''deploy'', ''--help'']
     = Returned (None, \<lparr>flags = root_flags(''help'' \<mapsto> BoolVal True), arguments = [],
                         path = [Root, Command ''deploy'' False [] [] [] (Some RunDeploy)]\<rparr>)
   \<and> install_tools tools_present = None
   \<and> run Root tools_present [''deploy'', ''--help'']
        = PrintHelp [Root, Command ''deploy'' False [] [] [] (Some RunDeploy)]
   \<and> run Root tools_present [''secret''] = PrintHelp [Root, secret]
   \<and> resolve Root [''secret'', ''set'', ''Foo'']
        = Returned (None, \<lparr>flags = root_flags, arguments = [''Foo''],
                            path = [Root, secret, secret_set]\<rparr>)
   \<and> run Root tools_present [''secret'', ''set'', ''Foo''] = PrintHelp [Root, secret, secret_set]
   \<and> run Root tools_present [''secret'', ''set'', ''Foo'', ''bar'', ''--stage=prod'']
        \<noteq> PrintHelp [Root, secret, secret_set]
   \<and> run Root tools_present [''secret'', ''set'', ''Foo'', ''bar'', ''--stage=prod'']
        = Invoke RunSecretSet \<lparr>flags = root_flags(''stage'' \<mapsto> StringVal ''prod''),
                                arguments = [''Foo'', ''bar''],
                                path = [Root, secret, secret_set]\<rparr>"
proof -
  let ?asked = "\<lparr>flags = root_flags(''help'' \<mapsto> BoolVal True), arguments = [],
                 path = [Root, Command ''deploy'' False [] [] [] (Some RunDeploy)]\<rparr>"
  let ?group = "\<lparr>flags = root_flags, arguments = [], path = [Root, secret]\<rparr>"
  let ?short = "\<lparr>flags = root_flags, arguments = [''Foo''], path = [Root, secret, secret_set]\<rparr>"
  let ?full = "\<lparr>flags = root_flags(''stage'' \<mapsto> StringVal ''prod''),
                arguments = [''Foo'', ''bar''], path = [Root, secret, secret_set]\<rparr>"
  have tools: "install_tools tools_present = None"
    by (simp add: install_tools_def tools_present_def)
  have flag_set: "flags ?asked ''help'' = Some (BoolVal True)"
    by simp
  from run_help_or_handler [OF resolve_deploy_help tools] flag_set
  have asked: "run Root tools_present [''deploy'', ''--help'']
                 = PrintHelp [Root, Command ''deploy'' False [] [] [] (Some RunDeploy)]"
    by simp
  have no_run: "Run (last (path ?group)) = None"
    by (simp add: secret_def)
  from run_help_or_handler [OF resolve_secret tools] no_run
  have group: "run Root tools_present [''secret''] = PrintHelp [Root, secret]"
    by simp
  have parse: "Parse root_flags [''secret'', ''set'', ''Foo'']
                 = (None, root_flags, [''secret'', ''set'', ''Foo''])"
    by (simp add: Parse_def)
  have "walk [Root] [''secret'', ''set'', ''Foo''] = ([Root, secret, secret_set], [''Foo''])"
    by (simp add: matching_child_def table_defs Let_def)
  with parse have short: "resolve Root [''secret'', ''set'', ''Foo''] = Returned (None, ?short)"
    by (simp add: resolve_def registerFlags_Root)
  have too_few: "length (arguments ?short)
                   < length (filter arg_Required (Args (last (path ?short))))"
    by (simp add: secret_set_def)
  from run_help_or_handler [OF short tools] too_few
  have helped: "run Root tools_present [''secret'', ''set'', ''Foo''] = PrintHelp [Root, secret, secret_set]"
    by simp
  have enough: "\<not> (flags ?full ''help'' = Some (BoolVal True)
                    \<or> Run (last (path ?full)) = None
                    \<or> length (arguments ?full)
                        < length (filter arg_Required (Args (last (path ?full)))))"
    by (simp add: root_flags_lookup secret_set_def)
  from run_help_or_handler [OF resolve_secret_set tools] enough
  have no_help: "run Root tools_present [''secret'', ''set'', ''Foo'', ''bar'', ''--stage=prod'']
                  \<noteq> PrintHelp (path ?full)"
    by blast
  with run_help_or_handler [OF resolve_secret_set tools]
  have "run Root tools_present [''secret'', ''set'', ''Foo'', ''bar'', ''--stage=prod'']
          = Invoke (the (Run (last (path ?full)))) ?full"
    by blast
  then have handler: "run Root tools_present [''secret'', ''set'', ''Foo'', ''bar'', ''--stage=prod'']
          = Invoke RunSecretSet ?full"
    by (simp add: secret_set_def)
  from resolve_deploy_help tools asked group short helped no_help handler show ?thesis by simp
qed

subsection \<open>The prompt loop\<close>

text \<open>The loop ends at the first scan that yields a non-empty value.\<close>

lemma prompt_terminates:
  "(\<forall>i<k. rejected (inp (n + i))) \<Longrightarrow> inp (n + k) = ScanOk s \<Longrightarrow> s \<noteq> [] \<Longrightarrow>
     prompt inp n = Some (s, Suc (n + k))"
proof (induction k arbitrary: n)
  case 0
  then show ?case by (subst prompt.simps) simp
next
  case (Suc k)
  from Suc.prems(1) have r: "rejected (inp n)" by (metis add.right_neutral zero_less_Suc)
  from Suc.prems(1) have "\<forall>i<k. rejected (inp (Suc n + i))" by auto
  with Suc.IH [of "Suc n"] Suc.prems(2,3) have "prompt inp (Suc n) = Some (s, Suc (Suc n + k))"
    by simp
  with r show ?case
    by (subst prompt.simps) (auto simp: rejected_def split: scan.splits)
qed

text \<open>Whatever the loop returns was entered, non-empty, right after rejected scans only.\<close>

lemma prompt_Some:
  assumes "prompt inp n = Some r"
  shows "fst r \<noteq> [] \<and> n < snd r \<and> inp (snd r - 1) = ScanOk (fst r)
     \<and> (\<forall>i. n \<le> i \<and> i < snd r - 1 \<longrightarrow> rejected (inp i))"
proof (rule prompt.raw_induct [where P = "\<lambda>inp n r. fst r \<noteq> [] \<and> n < snd r
     \<and> inp (snd r - 1) = ScanOk (fst r)
     \<and> (\<forall>i. n \<le> i \<and> i < snd r - 1 \<longrightarrow> rejected (inp i))", OF _ assms])
  fix f :: "(nat \<Rightarrow> scan) \<Rightarrow> nat \<Rightarrow> (string \<times> nat) option" and inp n r
  assume IH: "\<And>inp n r. f inp n = Some r \<Longrightarrow>
     fst r \<noteq> [] \<and> n < snd r \<and> inp (snd r - 1) = ScanOk (fst r)
     \<and> (\<forall>i. n \<le> i \<and> i < snd r - 1 \<longrightarrow> rejected (inp i))"
  assume step: "(case inp n of
        ScanOk stage \<Rightarrow> if stage = [] then f inp (Suc n) else Some (stage, Suc n)
      | ScanErr \<Rightarrow> f inp (Suc n)) = Some r"
  show "fst r \<noteq> [] \<and> n < snd r \<and> inp (snd r - 1) = ScanOk (fst r)
     \<and> (\<forall>i. n \<le> i \<and> i < snd r - 1 \<longrightarrow> rejected (inp i))"
  proof (cases "rejected (inp n)")
    case True
    with step have "f inp (Suc n) = Some r"
      by (auto simp: rejected_def split: scan.splits)
    from IH [OF this] have ih: "fst r \<noteq> []" "Suc n < snd r" "inp (snd r - 1) = ScanOk (fst r)"
      "\<forall>i. Suc n \<le> i \<and> i < snd r - 1 \<longrightarrow> rejected (inp i)"
      by auto
    have "rejected (inp i)" if "n \<le> i" "i < snd r - 1" for i
      using that True ih(4) by (cases "i = n") auto
    with ih show ?thesis by auto
  next
    case False
    with step show ?thesis
      by (auto simp: rejected_def split: scan.splits if_splits)
  qed
qed

lemma prompt_diverges:
  assumes "\<forall>i\<ge>n. rejected (inp i)"
  shows "prompt inp n = None"
proof (cases "prompt inp n")
  case None
  then show ?thesis .
next
  case (Some r)
  from prompt_Some [OF this] have "fst r \<noteq> []" "n < snd r" "inp (snd r - 1) = ScanOk (fst r)"
    by auto
  moreover from this(2) assms have "rejected (inp (snd r - 1))" by simp
  ultimately show ?thesis by (simp add: rejected_def)
qed

subsection \<open>The four sources of a stage\<close>

lemma getStage_flag:
  "Cli_String cli ''stage'' = Returned flag \<Longrightarrow> flag \<noteq> [] \<Longrightarrow>
     getStage env cli cfgPath w = Some (Returned flag, w\<lparr>dotenv := dotenv w @ [''.env.'' @ flag]\<rparr>)"
  by (simp add: getStage_def load_dotenv_def)

lemma getStage_persisted:
  "Cli_String cli ''stage'' = Returned [] \<Longrightarrow> LoadPersonalStage w cfgPath = persisted \<Longrightarrow>
   persisted \<noteq> [] \<Longrightarrow>
     getStage env cli cfgPath w
       = Some (Returned persisted, w\<lparr>dotenv := dotenv w @ [''.env.'' @ persisted]\<rparr>)"
  by (auto simp add: getStage_def load_dotenv_def Let_def)

lemma getStage_guess:
  "Cli_String cli ''stage'' = Returned [] \<Longrightarrow> LoadPersonalStage w cfgPath = [] \<Longrightarrow>
   guessStage (unicode_lower env) (current_user env) = guess \<Longrightarrow> guess \<noteq> [] \<Longrightarrow>
     getStage env cli cfgPath w
       = (case write_error env of
            None \<Rightarrow> Some (Returned guess,
                     w\<lparr>lookups := Suc (lookups w), marker := (marker w)(cfgPath \<mapsto> guess),
                        dotenv := dotenv w @ [''.env.'' @ guess]\<rparr>)
          | Some err \<Rightarrow> Some (Failed err, w\<lparr>lookups := Suc (lookups w)\<rparr>))"
  by (auto simp add: getStage_def load_dotenv_def Let_def SetPersonalStage_def split: option.splits)

lemma getStage_prompt:
  "Cli_String cli ''stage'' = Returned [] \<Longrightarrow> LoadPersonalStage w cfgPath = [] \<Longrightarrow>
   guessStage (unicode_lower env) (current_user env) = [] \<Longrightarrow>
   \<forall>i<k. rejected (stdin env (scanned w + i)) \<Longrightarrow>
   stdin env (scanned w + k) = ScanOk entered \<Longrightarrow> entered \<noteq> [] \<Longrightarrow>
     getStage env cli cfgPath w
       = (case write_error env of
            None \<Rightarrow> Some (Returned entered,
                     w\<lparr>lookups := Suc (lookups w), scanned := Suc (scanned w + k),
                        marker := (marker w)(cfgPath \<mapsto> entered),
                        dotenv := dotenv w @ [''.env.'' @ entered]\<rparr>)
          | Some err \<Rightarrow> Some (Failed err,
                     w\<lparr>lookups := Suc (lookups w), scanned := Suc (scanned w + k)\<rparr>))"
  using prompt_terminates [of k "stdin env" "scanned w" entered]
  by (auto simp add: getStage_def load_dotenv_def Let_def SetPersonalStage_def split: option.splits)

lemma getStage_prompt_forever:
  assumes "Cli_String cli ''stage'' = Returned []" and "LoadPersonalStage w cfgPath = []"
    and "guessStage (unicode_lower env) (current_user env) = []"
    and "\<forall>i. rejected (stdin env (scanned w + i))"
  shows "getStage env cli cfgPath w = None"
proof -
  have "\<forall>i\<ge>scanned w. rejected (stdin env i)"
  proof (intro allI impI)
    fix i assume "scanned w \<le> i"
    then have "i = scanned w + (i - scanned w)" by simp
    with assms(4) show "rejected (stdin env i)" by metis
  qed
  then have "prompt (stdin env) (scanned w) = None" by (rule prompt_diverges)
  with assms show ?thesis by (simp add: getStage_def Let_def)
qed

text \<open>
  C5. \<^verbatim>\<open>getStage\<close> takes the stage from the first of these that gives a non-empty
  value. (1) The \<^verbatim>\<open>--stage\<close> flag: returned as it is; nothing is scanned, looked up or
  persisted. (2) The persisted personal stage: returned, again with nothing scanned,
  looked up or persisted. (3) The guess from the user name: returned and persisted.
  (4) The prompt: it is repeated over every failed or empty scan, and the first
  non-empty value entered is returned and persisted; if no such value ever comes the
  call does not return. In (3) and (4), when persisting fails the error is returned
  instead of the stage.
\<close>

theorem getStage_precedence:
  "(Cli_String cli ''stage'' = Returned flag \<and> flag \<noteq> [] \<longrightarrow>
      getStage env cli cfgPath w
        = Some (Returned flag, w\<lparr>dotenv := dotenv w @ [''.env.'' @ flag]\<rparr>))
   \<and> (Cli_String cli ''stage'' = Returned [] \<and> LoadPersonalStage w cfgPath = persisted
        \<and> persisted \<noteq> [] \<longrightarrow>
      getStage env cli cfgPath w
        = Some (Returned persisted, w\<lparr>dotenv := dotenv w @ [''.env.'' @ persisted]\<rparr>))
   \<and> (Cli_String cli ''stage'' = Returned [] \<and> LoadPersonalStage w cfgPath = []
        \<and> guessStage (unicode_lower env) (current_user env) = guess \<and> guess \<noteq> [] \<longrightarrow>
      getStage env cli cfgPath w
        = (case write_error env of
             None \<Rightarrow> Some (Returned guess,
                      w\<lparr>lookups := Suc (lookups w), marker := (marker w)(cfgPath \<mapsto> guess),
                         dotenv := dotenv w @ [''.env.'' @ guess]\<rparr>)
           | Some err \<Rightarrow> Some (Failed err, w\<lparr>lookups := Suc (lookups w)\<rparr>)))
   \<and> (Cli_String cli ''stage'' = Returned [] \<and> LoadPersonalStage w cfgPath = []
        \<and> guessStage (unicode_lower env) (current_user env) = []
        \<and> (\<forall>i<k. rejected (stdin env (scanned w + i)))
        \<and> stdin env (scanned w + k) = ScanOk entered \<and> entered \<noteq> [] \<longrightarrow>
      getStage env cli cfgPath w
        = (case write_error env of
             None \<Rightarrow> Some (Returned entered,
                      w\<lparr>lookups := Suc (lookups w), scanned := Suc (scanned w + k),
                         marker := (marker w)(cfgPath \<mapsto> entered),
                         dotenv := dotenv w @ [''.env.'' @ entered]\<rparr>)
           | Some err \<Rightarrow> Some (Failed err,
                      w\<lparr>lookups := Suc (lookups w), scanned := Suc (scanned w + k)\<rparr>)))
   \<and> (Cli_String cli ''stage'' = Returned [] \<and> LoadPersonalStage w cfgPath = []
        \<and> guessStage (unicode_lower env) (current_user env) = []
        \<and> (\<forall>i. rejected (stdin env (scanned w + i))) \<longrightarrow>
      getStage env cli cfgPath w = None)"
proof (intro conjI impI)
  assume "Cli_String cli ''stage'' = Returned flag \<and> flag \<noteq> []"
  then show "getStage env cli cfgPath w
        = Some (Returned flag, w\<lparr>dotenv := dotenv w @ [''.env.'' @ flag]\<rparr>)"
    by (simp add: getStage_flag)
next
  assume "Cli_String cli ''stage'' = Returned [] \<and> LoadPersonalStage w cfgPath = persisted
        \<and> persisted \<noteq> []"
  then show "getStage env cli cfgPath w
        = Some (Returned persisted, w\<lparr>dotenv := dotenv w @ [''.env.'' @ persisted]\<rparr>)"
    using getStage_persisted [of cli w cfgPath persisted env] by blast
next
  assume "Cli_String cli ''stage'' = Returned [] \<and> LoadPersonalStage w cfgPath = []
        \<and> guessStage (unicode_lower env) (current_user env) = guess \<and> guess \<noteq> []"
  then show "getStage env cli cfgPath w
        = (case write_error env of
             None \<Rightarrow> Some (Returned guess,
                      w\<lparr>lookups := Suc (lookups w), marker := (marker w)(cfgPath \<mapsto> guess),
                         dotenv := dotenv w @ [''.env.'' @ guess]\<rparr>)
           | Some err \<Rightarrow> Some (Failed err, w\<lparr>lookups := Suc (lookups w)\<rparr>))"
    using getStage_guess [of cli w cfgPath env guess] by blast
next
  assume "Cli_String cli ''stage'' = Returned [] \<and> LoadPersonalStage w cfgPath = []
        \<and> guessStage (unicode_lower env) (current_user env) = []
        \<and> (\<forall>i<k. rejected (stdin env (scanned w + i)))
        \<and> stdin env (scanned w + k) = ScanOk entered \<and> entered \<noteq> []"
  then show "getStage env cli cfgPath w
        = (case write_error env of
             None \<Rightarrow> Some (Returned entered,
                      w\<lparr>lookups := Suc (lookups w), scanned := Suc (scanned w + k),
                         marker := (marker w)(cfgPath \<mapsto> entered),
                         dotenv := dotenv w @ [''.env.'' @ entered]\<rparr>)
           | Some err \<Rightarrow> Some (Failed err,
                      w\<lparr>lookups := Suc (lookups w), scanned := Suc (scanned w + k)\<rparr>))"
    using getStage_prompt [of cli w cfgPath env k entered] by blast
next
  assume "Cli_String cli ''stage'' = Returned [] \<and> LoadPersonalStage w cfgPath = []
        \<and> guessStage (unicode_lower env) (current_user env) = []
        \<and> (\<forall>i. rejected (stdin env (scanned w + i)))"
  then show "getStage env cli cfgPath w = None"
    using getStage_prompt_forever [of cli w cfgPath env] by blast
qed

theorem getStage_precedence_witness:
  "getStage user_alice (cli_with_stage ''prod'') ''sst.config.ts'' fresh_world
     = Some (Returned ''prod'', fresh_world\<lparr>dotenv := dotenv fresh_world @ [''.env.'' @ ''prod'']\<rparr>)
   \<and> getStage user_alice (cli_with_stage []) ''sst.config.ts''
        (fresh_world\<lparr>marker := [''sst.config.ts'' \<mapsto> ''mine'']\<rparr>)
     = Some (Returned ''mine'', fresh_world\<lparr>marker := [''sst.config.ts'' \<mapsto> ''mine''],
                                              dotenv := [''.env.mine'']\<rparr>)
   \<and> getStage user_alice (cli_with_stage []) ''sst.config.ts'' fresh_world
     = Some (Returned ''alice'', \<lparr>marker = [''sst.config.ts'' \<mapsto> ''alice''], scanned = 0,
                                   lookups = 1, dotenv = [''.env.alice'']\<rparr>)
   \<and> getStage user_root_typing (cli_with_stage []) ''sst.config.ts'' fresh_world
     = Some (Returned ''dev1'', \<lparr>marker = [''sst.config.ts'' \<mapsto> ''dev1''], scanned = 3,
                                  lookups = 1, dotenv = [''.env.dev1'']\<rparr>)
   \<and> getStage user_root_silent (cli_with_stage []) ''sst.config.ts'' fresh_world = None"
proof -
  let ?cfg = "''sst.config.ts''"
  have flag: "Cli_String (cli_with_stage ''prod'') ''stage'' = Returned ''prod'' \<and> ''prod'' \<noteq> []"
    by (simp add: Cli_String_def cli_with_stage_def)
  have no_flag: "Cli_String (cli_with_stage []) ''stage'' = Returned []"
    by (simp add: Cli_String_def cli_with_stage_def)
  have persisted: "LoadPersonalStage (fresh_world\<lparr>marker := [?cfg \<mapsto> ''mine'']\<rparr>) ?cfg = ''mine''
      \<and> ''mine'' \<noteq> []"
    by (simp add: LoadPersonalStage_def)
  have no_marker: "LoadPersonalStage fresh_world ?cfg = []"
    by (simp add: LoadPersonalStage_def fresh_world_def)
  have alice: "guessStage (unicode_lower user_alice) (current_user user_alice) = ''alice'' \<and> ''alice'' \<noteq> []"
    by code_simp
  have "guessStage no_mapping (Inr ''root'') = []" by code_simp
  then have root1: "guessStage (unicode_lower user_root_typing) (current_user user_root_typing) = []"
    by (simp add: user_root_typing_def)
  have "guessStage no_mapping (Inr ''root'') = []" by code_simp
  then have root2: "guessStage (unicode_lower user_root_silent) (current_user user_root_silent) = []"
    by (simp add: user_root_silent_def)
  have typed: "(\<forall>i<2. rejected (stdin user_root_typing (scanned fresh_world + i)))
      \<and> stdin user_root_typing (scanned fresh_world + 2) = ScanOk ''dev1'' \<and> ''dev1'' \<noteq> []"
    by (simp add: user_root_typing_def fresh_world_def rejected_def)
  have silent: "\<forall>i. rejected (stdin user_root_silent (scanned fresh_world + i))"
    by (simp add: user_root_silent_def rejected_def)
  have p2: "Cli_String (cli_with_stage []) ''stage'' = Returned []
      \<and> LoadPersonalStage (fresh_world\<lparr>marker := [?cfg \<mapsto> ''mine'']\<rparr>) ?cfg = ''mine''
      \<and> ''mine'' \<noteq> []"
    using no_flag persisted by blast
  have p3: "Cli_String (cli_with_stage []) ''stage'' = Returned []
      \<and> LoadPersonalStage fresh_world ?cfg = []
      \<and> guessStage (unicode_lower user_alice) (current_user user_alice) = ''alice'' \<and> ''alice'' \<noteq> []"
    using no_flag no_marker alice by blast
  have p4: "Cli_String (cli_with_stage []) ''stage'' = Returned []
      \<and> LoadPersonalStage fresh_world ?cfg = []
      \<and> guessStage (unicode_lower user_root_typing) (current_user user_root_typing) = []
      \<and> (\<forall>i<2. rejected (stdin user_root_typing (scanned fresh_world + i)))
      \<and> stdin user_root_typing (scanned fresh_world + 2) = ScanOk ''dev1'' \<and> ''dev1'' \<noteq> []"
    using no_flag no_marker root1 typed by blast
  have p5: "Cli_String (cli_with_stage []) ''stage'' = Returned []
      \<and> LoadPersonalStage fresh_world ?cfg = []
      \<and> guessStage (unicode_lower user_root_silent) (current_user user_root_silent) = []
      \<and> (\<forall>i. rejected (stdin user_root_silent (scanned fresh_world + i)))"
    using no_flag no_marker root2 silent by blast
  note c1 = mp [OF getStage_precedence [THEN conjunct1] flag]
  note c2 = mp [OF getStage_precedence [THEN conjunct2, THEN conjunct1] p2]
  note c3 = mp [OF getStage_precedence [THEN conjunct2, THEN conjunct2, THEN conjunct1] p3]
  note c4 = mp [OF getStage_precedence [THEN conjunct2, THEN conjunct2, THEN conjunct2, THEN conjunct1] p4]
  note c5 = mp [OF getStage_precedence [THEN conjunct2, THEN conjunct2, THEN conjunct2, THEN conjunct2] p5]
  have g1: "getStage user_alice (cli_with_stage ''prod'') ?cfg fresh_world
     = Some (Returned ''prod'', fresh_world\<lparr>dotenv := dotenv fresh_world @ [''.env.'' @ ''prod'']\<rparr>)"
    by (rule c1)
  have g2: "getStage user_alice (cli_with_stage []) ?cfg (fresh_world\<lparr>marker := [?cfg \<mapsto> ''mine'']\<rparr>)
     = Some (Returned ''mine'', fresh_world\<lparr>marker := [?cfg \<mapsto> ''mine''],
                                              dotenv := [''.env.mine'']\<rparr>)"
    using c2 [of user_alice] by (simp add: fresh_world_def)
  have g3: "getStage user_alice (cli_with_stage []) ?cfg fresh_world
     = Some (Returned ''alice'', \<lparr>marker = [?cfg \<mapsto> ''alice''], scanned = 0,
                                   lookups = 1, dotenv = [''.env.alice'']\<rparr>)"
    using c3 by (simp add: fresh_world_def user_alice_def)
  have g4: "getStage user_root_typing (cli_with_stage []) ?cfg fresh_world
     = Some (Returned ''dev1'', \<lparr>marker = [?cfg \<mapsto> ''dev1''], scanned = 3,
                                  lookups = 1, dotenv = [''.env.dev1'']\<rparr>)"
    using c4 by (simp add: fresh_world_def user_root_typing_def)
  have g5: "getStage user_root_silent (cli_with_stage []) ?cfg fresh_world = None"
    by (rule c5)
  from g1 g2 g3 g4 g5 show ?thesis by simp
qed

subsection \<open>Resolving twice\<close>

lemma getStage_returned_marker:
  assumes "Cli_String cli ''stage'' = Returned []"
    and "getStage env cli cfgPath w = Some (Returned stage, w1)"
  shows "stage \<noteq> [] \<and> LoadPersonalStage w1 cfgPath = stage"
proof (cases "LoadPersonalStage w cfgPath = []")
  case False
  with assms show ?thesis
    by (auto simp: getStage_def Let_def load_dotenv_def LoadPersonalStage_def)
next
  case True
  show ?thesis
  proof (cases "guessStage (unicode_lower env) (current_user env) = []")
    case False
    with True assms show ?thesis
      by (auto simp: getStage_def Let_def load_dotenv_def LoadPersonalStage_def
          SetPersonalStage_def split: option.splits)
  next
    case no_guess: True
    show ?thesis
    proof (cases "prompt (stdin env) (scanned w)")
      case None
      with True no_guess assms show ?thesis by (simp add: getStage_def Let_def)
    next
      case (Some r)
      from prompt_Some [of "stdin env" "scanned w" r] Some have "fst r \<noteq> []" by simp
      with Some True no_guess assms show ?thesis
        by (cases r) (auto simp: getStage_def Let_def load_dotenv_def LoadPersonalStage_def
          SetPersonalStage_def split: option.splits)
    qed
  qed
qed

text \<open>
  C7. Without a \<^verbatim>\<open>--stage\<close> flag, when a call of \<^verbatim>\<open>getStage\<close> has returned a stage,
  the next call on the state it left returns the same stage, whatever the user name and
  the input are by then: the marker holds the stage, and the second call scans nothing,
  looks no user up and writes no marker (it only loads the stage's dotenv file again).
\<close>

theorem getStage_idempotent:
  assumes "Cli_String cli ''stage'' = Returned []"
    and "getStage env cli cfgPath w = Some (Returned stage, w1)"
  shows "getStage env2 cli cfgPath w1
           = Some (Returned stage, w1\<lparr>dotenv := dotenv w1 @ [''.env.'' @ stage]\<rparr>)
         \<and> marker w1 cfgPath = Some stage \<and> stage \<noteq> []"
proof -
  from getStage_returned_marker [OF assms]
  have m: "stage \<noteq> []" "LoadPersonalStage w1 cfgPath = stage"
    by auto
  from getStage_persisted [OF assms(1) m(2) m(1)] m show ?thesis
    by (auto simp: LoadPersonalStage_def split: option.splits)
qed

theorem getStage_idempotent_witness:
  "Cli_String (cli_with_stage []) ''stage'' = Returned []
   \<and> getStage user_root_typing (cli_with_stage []) ''sst.config.ts'' fresh_world
       = Some (Returned ''dev1'', \<lparr>marker = [''sst.config.ts'' \<mapsto> ''dev1''], scanned = 3,
                                    lookups = 1, dotenv = [''.env.dev1'']\<rparr>)
   \<and> getStage user_root_silent (cli_with_stage []) ''sst.config.ts''
        \<lparr>marker = [''sst.config.ts'' \<mapsto> ''dev1''], scanned = 3, lookups = 1,
         dotenv = [''.env.dev1'']\<rparr>
       = Some (Returned ''dev1'', \<lparr>marker = [''sst.config.ts'' \<mapsto> ''dev1''], scanned = 3,
                                    lookups = 1, dotenv = [''.env.dev1'', ''.env.dev1'']\<rparr>)"
proof -
  let ?cfg = "''sst.config.ts''"
  have no_flag: "Cli_String (cli_with_stage []) ''stage'' = Returned []"
    by (simp add: Cli_String_def cli_with_stage_def)
  have no_marker: "LoadPersonalStage fresh_world ?cfg = []"
    by (simp add: LoadPersonalStage_def fresh_world_def)
  have "guessStage no_mapping (Inr ''root'') = []" by code_simp
  then have no_guess: "guessStage (unicode_lower user_root_typing) (current_user user_root_typing) = []"
    by (simp add: user_root_typing_def)
  have rejects: "\<forall>i<2. rejected (stdin user_root_typing (scanned fresh_world + i))"
    by (simp add: user_root_typing_def fresh_world_def rejected_def)
  have entered: "stdin user_root_typing (scanned fresh_world + 2) = ScanOk ''dev1''"
    by (simp add: user_root_typing_def fresh_world_def)
  from getStage_prompt [OF no_flag no_marker no_guess rejects entered]
  have first: "getStage user_root_typing (cli_with_stage []) ?cfg fresh_world
       = Some (Returned ''dev1'', \<lparr>marker = [?cfg \<mapsto> ''dev1''], scanned = 3,
                                    lookups = 1, dotenv = [''.env.dev1'']\<rparr>)"
    by (simp add: fresh_world_def user_root_typing_def)
  from getStage_idempotent [OF no_flag first, of user_root_silent]
  have "getStage user_root_silent (cli_with_stage []) ?cfg
        \<lparr>marker = [?cfg \<mapsto> ''dev1''], scanned = 3, lookups = 1, dotenv = [''.env.dev1'']\<rparr>
       = Some (Returned ''dev1'', \<lparr>marker = [?cfg \<mapsto> ''dev1''], scanned = 3,
                                    lookups = 1, dotenv = [''.env.dev1'', ''.env.dev1'']\<rparr>)"
    by simp
  with no_flag first show ?thesis by simp
qed

subsection \<open>Lock and unlock in \<^verbatim>\<open>state edit\<close>\<close>

lemmas frame_defs = entry_def invoke_def defer_call_def return_from_def

text \<open>
  C1. Once \<^verbatim>\<open>initProject\<close> and \<^verbatim>\<open>Stack.Lock\<close> have succeeded, the calls of the
  \<^verbatim>\<open>state edit\<close> handler end with \<^verbatim>\<open>Stack.Unlock\<close> (followed only by the project's
  cleanup), whatever happens in between: \<^verbatim>\<open>PullState\<close> failing, the editor not
  starting, the editor exiting with an error, or \<^verbatim>\<open>PushState\<close> running. The unlock is
  attempted exactly once on each of these exits.
\<close>

theorem state_edit_unlocks:
  assumes "edit_initProject env = None" and "edit_Lock env = None"
  shows "\<exists>mid. fst (state_edit_Run env)
                 = [CallInitProject, CallLock] @ mid @ [CallUnlock, CallCleanup]
               \<and> CallUnlock \<notin> set mid
               \<and> (mid = [CallPullState]
                  \<or> (\<exists>editor file. mid = [CallPullState, CallStartEditor editor file]
                        \<or> mid = [CallPullState, CallStartEditor editor file, CallWaitEditor]
                        \<or> mid = [CallPullState, CallStartEditor editor file, CallWaitEditor,
                                  CallPushState]))"
  using assms
  by (auto simp: state_edit_Run_def frame_defs Let_def split: sum.splits option.splits)

theorem state_edit_unlocks_witness:
  "edit_initProject \<lparr>edit_initProject = None, edit_Lock = None, edit_PullState = Inr ''state.json'',
       edit_EDITOR = [], edit_Start = None, edit_Wait = Some (Err ''exit status 1''),
       edit_PushState = None\<rparr> = None
   \<and> edit_Lock \<lparr>edit_initProject = None, edit_Lock = None, edit_PullState = Inr ''state.json'',
       edit_EDITOR = [], edit_Start = None, edit_Wait = Some (Err ''exit status 1''),
       edit_PushState = None\<rparr> = None
   \<and> (\<exists>mid. fst (state_edit_Run \<lparr>edit_initProject = None, edit_Lock = None,
                    edit_PullState = Inr ''state.json'', edit_EDITOR = [], edit_Start = None,
                    edit_Wait = Some (Err ''exit status 1''), edit_PushState = None\<rparr>)
                 = [CallInitProject, CallLock] @ mid @ [CallUnlock, CallCleanup]
               \<and> CallUnlock \<notin> set mid)"
proof -
  let ?env = "\<lparr>edit_initProject = None, edit_Lock = None, edit_PullState = Inr ''state.json'',
       edit_EDITOR = [], edit_Start = None, edit_Wait = Some (Err ''exit status 1''),
       edit_PushState = None\<rparr>"
  have init: "edit_initProject ?env = None" by simp
  have lock: "edit_Lock ?env = None" by simp
  from state_edit_unlocks [OF init lock] obtain mid where
    "fst (state_edit_Run ?env) = [CallInitProject, CallLock] @ mid @ [CallUnlock, CallCleanup]"
    "CallUnlock \<notin> set mid"
    by blast
  with init lock show ?thesis by blast
qed

text \<open>When the lock is refused, the handler returns without an unlock.\<close>

lemma state_edit_lock_refused:
  "edit_initProject env = None \<Longrightarrow> edit_Lock env = Some err \<Longrightarrow>
     state_edit_Run env
       = ([CallInitProject, CallLock, CallCleanup],
          Failed (ReadableError (Some err) ''Could not lock state''))"
  by (simp add: state_edit_Run_def frame_defs NewReadableError_def)

subsection \<open>Removing a secret that is not there\<close>

text \<open>
  C8. When the project is initialised and the backend returns a secrets map in which
  the key (the first positional) is absent, \<^verbatim>\<open>secret remove\<close> returns a readable error
  without a cause whose message names the secret and the stage. It makes no call of
  \<^verbatim>\<open>PutSecrets\<close>, and the backend is as before.
\<close>

theorem secret_remove_absent:
  assumes "Positional cli 0 = Returned key"
    and "GetSecrets b (app_Name p) (app_Stage p) = Inr secrets"
    and "secrets key = None"
  shows "secret_remove_Run (Inr p) cli b
           = (([CallInitProject, CallGetSecrets (app_Name p) (app_Stage p), CallCleanup],
               Failed (ReadableError None
                  (''Secret '' @ quoted key @ '' does not exist for stage ''
                     @ quoted (app_Stage p)))),
              b)
         \<and> CallPutSecrets (app_Name p) (app_Stage p)
              \<notin> set (fst (fst (secret_remove_Run (Inr p) cli b)))
         \<and> stored (snd (secret_remove_Run (Inr p) cli b)) = stored b"
  using assms
  by (simp add: secret_remove_Run_def frame_defs NewReadableError_def Let_def)

theorem secret_remove_absent_witness:
  "Positional \<lparr>flags = Map.empty, arguments = [''Missing''], path = []\<rparr> 0 = Returned ''Missing''
   \<and> GetSecrets \<lparr>stored = (\<lambda>k. [''StripeSecret'' \<mapsto> ''123'']), get_error = None,
                   put_error = None\<rparr> ''app'' ''prod''
        = Inr [''StripeSecret'' \<mapsto> ''123'']
   \<and> [''StripeSecret'' \<mapsto> ''123''] ''Missing'' = None
   \<and> snd (fst (secret_remove_Run (Inr \<lparr>app_Name = ''app'', app_Stage = ''prod''\<rparr>)
                  \<lparr>flags = Map.empty, arguments = [''Missing''], path = []\<rparr>
                  \<lparr>stored = (\<lambda>k. [''StripeSecret'' \<mapsto> ''123'']), get_error = None,
                    put_error = None\<rparr>))
        = Failed (ReadableError None
            (''Secret '' @ quoted ''Missing'' @ '' does not exist for stage '' @ quoted ''prod''))"
proof -
  let ?cli = "\<lparr>flags = Map.empty, arguments = [''Missing''], path = []\<rparr>"
  let ?b = "\<lparr>stored = (\<lambda>k. [''StripeSecret'' \<mapsto> ''123'']), get_error = None, put_error = None\<rparr>"
  let ?p = "\<lparr>app_Name = ''app'', app_Stage = ''prod''\<rparr>"
  have key: "Positional ?cli 0 = Returned ''Missing''"
    by (simp add: Positional_def)
  have got: "GetSecrets ?b (app_Name ?p) (app_Stage ?p) = Inr [''StripeSecret'' \<mapsto> ''123'']"
    by (simp add: GetSecrets_def)
  have absent: "[''StripeSecret'' \<mapsto> ''123''] ''Missing'' = None"
    by simp
  from secret_remove_absent [OF key got absent]
  have "snd (fst (secret_remove_Run (Inr ?p) ?cli ?b))
        = Failed (ReadableError None
            (''Secret '' @ quoted ''Missing'' @ '' does not exist for stage '' @ quoted ''prod''))"
    by simp
  with key got absent show ?thesis by simp
qed

subsection \<open>Exit codes\<close>





end
